theory Spec2Isabelle
  imports Complex_Main
begin

section \<open>Numbers, errors and random generators\<close>

text \<open>
  Python floats are modelled as HOL reals and Python ints as HOL ints. \<open>int(x)\<close> on a
  float (and numpy's \<open>astype(int)\<close>) truncates toward zero; \<open>np.round\<close> and Python's
  \<open>round\<close> round half to even.
\<close>

definition py_int :: "real \<Rightarrow> int" where
  "py_int x = (if 0 \<le> x then \<lfloor>x\<rfloor> else \<lceil>x\<rceil>)"

definition np_round :: "real \<Rightarrow> int" where
  "np_round x =
     (let f = \<lfloor>x\<rfloor>; d = x - of_int f
      in if d < 1 / 2 then f else if 1 / 2 < d then f + 1 else if even f then f else f + 1)"

text \<open>\<open>a % b\<close> on Python floats with \<open>b > 0\<close>: the result has the sign of \<open>b\<close>.\<close>

definition py_fmod :: "real \<Rightarrow> real \<Rightarrow> real" where
  "py_fmod a b = a - b * of_int \<lfloor>a / b\<rfloor>"

text \<open>\<open>np.arctan2(dy, dx)\<close>, the angle of the point \<open>(dx, dy)\<close> in \<open>(-\<pi>, \<pi>]\<close>.\<close>

definition arctan2 :: "real \<Rightarrow> real \<Rightarrow> real" where
  "arctan2 dy dx =
     (if 0 < dx then arctan (dy / dx)
      else if dx < 0 then (if 0 \<le> dy then arctan (dy / dx) + pi else arctan (dy / dx) - pi)
      else if 0 < dy then pi / 2 else if dy < 0 then - (pi / 2) else 0)"

datatype py_error = ValueError | ZeroDivisionError | IndexError

text \<open>
  A generator state is the stream of the values its next calls of \<open>random()\<close> will
  return. The Mersenne Twister itself is library code: \<open>py_seeded k\<close> is the state of
  Python's \<open>random\<close> after \<open>random.seed(k)\<close>, \<open>np_seeded k\<close> the state of
  \<open>np.random.RandomState(k)\<close> (and of numpy's global generator after
  \<open>np.random.seed(k)\<close>). The process has two global generators: the one of module
  \<open>random\<close> and the one of \<open>np.random\<close>.
\<close>

type_synonym rng = "nat \<Rightarrow> real"

record prng_lib =
  py_seeded :: "int \<Rightarrow> rng"
  np_seeded :: "int \<Rightarrow> rng"

record gstate =
  py_rng :: rng
  np_rng :: rng

definition advance :: "nat \<Rightarrow> rng \<Rightarrow> rng" where
  "advance n g = (\<lambda>k. g (k + n))"

definition py_random :: "rng \<Rightarrow> real \<times> rng" where
  "py_random g = (g 0, advance 1 g)"

text \<open>\<open>random.uniform(a, b)\<close> is \<open>a + (b - a) * random()\<close>.\<close>

definition py_uniform :: "real \<Rightarrow> real \<Rightarrow> rng \<Rightarrow> real \<times> rng" where
  "py_uniform a b g = (a + (b - a) * g 0, advance 1 g)"

text \<open>\<open>np.random.seed\<close> and \<open>RandomState\<close> accept seeds in \<open>[0, 2^32 - 1]\<close> only.\<close>

definition np_seed_ok :: "int \<Rightarrow> bool" where
  "np_seed_ok s = (0 \<le> s \<and> s < 2 ^ 32)"

section \<open>perlin.py\<close>

text \<open>
  A two-dimensional numpy array of floats: its shape and its cells. Only the cells
  inside the shape are ever read.
\<close>

record ndarray =
  n_rows :: nat
  n_cols :: nat
  n_at :: "nat \<Rightarrow> nat \<Rightarrow> real"

definition interpolant :: "real \<Rightarrow> real" where
  "interpolant t = t * t * t * (t * (t * 6 - 15) + 10)"

text \<open>
  \<open>rng.rand(res_y + 1, res_x + 1)\<close> fills the lattice in row-major order, so the
  gradient angle at lattice point \<open>(a, b)\<close> comes from draw number \<open>a * (res_x + 1) + b\<close>.
\<close>

definition lattice_angle :: "rng \<Rightarrow> int \<Rightarrow> int \<Rightarrow> int \<Rightarrow> real" where
  "lattice_angle draws res_x a b = 2 * pi * draws (nat (a * (res_x + 1) + b))"

text \<open>
  The value of one octave at output pixel \<open>(i, j)\<close>. \<open>np.linspace(0, res_x, w,
  endpoint=False)\<close> has step \<open>res_x / w\<close>.
\<close>

definition octave_value :: "rng \<Rightarrow> nat \<Rightarrow> nat \<Rightarrow> int \<Rightarrow> int \<Rightarrow> nat \<Rightarrow> nat \<Rightarrow> real" where
  "octave_value draws h w res_y res_x i j =
     (let X = real j * (of_int res_x / real w);
          Y = real i * (of_int res_y / real h);
          xi = py_int X;
          yi = py_int Y;
          xf = X - of_int xi;
          yf = Y - of_int yi;
          a00 = lattice_angle draws res_x yi xi;
          a10 = lattice_angle draws res_x yi (xi + 1);
          a01 = lattice_angle draws res_x (yi + 1) xi;
          a11 = lattice_angle draws res_x (yi + 1) (xi + 1);
          dot00 = cos a00 * xf + sin a00 * yf;
          dot10 = cos a10 * (xf - 1) + sin a10 * yf;
          dot01 = cos a01 * xf + sin a01 * (yf - 1);
          dot11 = cos a11 * (xf - 1) + sin a11 * (yf - 1);
          u = interpolant xf;
          v = interpolant yf;
          nx0 = dot00 * (1 - u) + u * dot10;
          nx1 = dot01 * (1 - u) + u * dot11
      in nx0 * (1 - v) + v * nx1)"

text \<open>
  \<open>single_octave\<close>. With a seed the gradients come from a fresh \<open>RandomState(seed)\<close>
  and the global numpy generator is left alone; without one they are drawn from the
  global generator, which advances by the size of the lattice. \<open>rand\<close> refuses a
  negative dimension; the fancy indexing \<open>gradients[yi + 1, xi + 1]\<close> raises IndexError
  as soon as there is a pixel and a lattice axis has fewer than two points.
\<close>

definition single_octave ::
  "prng_lib \<Rightarrow> nat \<Rightarrow> nat \<Rightarrow> int \<Rightarrow> int \<Rightarrow> int option \<Rightarrow> rng
     \<Rightarrow> py_error + ((nat \<Rightarrow> nat \<Rightarrow> real) \<times> rng)" where
  "single_octave lib h w res_y res_x seed g =
     (if (case seed of Some s \<Rightarrow> \<not> np_seed_ok s | None \<Rightarrow> False) then Inl ValueError
      else if res_y + 1 < 0 \<or> res_x + 1 < 0 then Inl ValueError
      else
        let n = nat ((res_y + 1) * (res_x + 1));
            draws = (case seed of Some s \<Rightarrow> np_seeded lib s | None \<Rightarrow> g);
            g' = (case seed of Some s \<Rightarrow> g | None \<Rightarrow> advance n g)
        in if 0 < h * w \<and> (res_y < 1 \<or> res_x < 1) then Inl IndexError
           else Inr (octave_value draws h w res_y res_x, g'))"

text \<open>
  The loop \<open>for o in range(octaves)\<close>: \<open>k\<close> octaves remain, \<open>oct\<close> is the current
  octave number.
\<close>

fun octave_loop ::
  "prng_lib \<Rightarrow> nat \<Rightarrow> nat \<Rightarrow> int \<Rightarrow> int \<Rightarrow> real \<Rightarrow> int option \<Rightarrow> nat \<Rightarrow> nat
     \<Rightarrow> (nat \<Rightarrow> nat \<Rightarrow> real) \<Rightarrow> real \<Rightarrow> real \<Rightarrow> rng
     \<Rightarrow> py_error + ((nat \<Rightarrow> nat \<Rightarrow> real) \<times> real \<times> rng)" where
  "octave_loop lib h w res_y res_x persistence seed 0 oct tot amplitude max_amp g =
     Inr (tot, max_amp, g)"
| "octave_loop lib h w res_y res_x persistence seed (Suc k) oct tot amplitude max_amp g =
     (case single_octave lib h w (res_y * 2 ^ oct) (res_x * 2 ^ oct)
             (map_option (\<lambda>s. s + int oct) seed) g of
        Inl e \<Rightarrow> Inl e
      | Inr (octave_noise, g') \<Rightarrow>
          octave_loop lib h w res_y res_x persistence seed k (Suc oct)
            (\<lambda>i j. tot i j + amplitude * octave_noise i j)
            (amplitude * persistence) (max_amp + amplitude) g')"

text \<open>
  \<open>generate_perlin_noise_2d(shape, res, octaves, persistence, seed)\<close>, run on the
  global numpy generator \<open>g\<close>; it returns the field and the generator after the call.
\<close>

definition generate_perlin_noise_2d ::
  "prng_lib \<Rightarrow> int \<times> int \<Rightarrow> int \<times> int \<Rightarrow> int \<Rightarrow> real \<Rightarrow> int option \<Rightarrow> rng
     \<Rightarrow> py_error + (ndarray \<times> rng)" where
  "generate_perlin_noise_2d lib shape res octaves persistence seed g =
     (if (case seed of Some s \<Rightarrow> \<not> np_seed_ok s | None \<Rightarrow> False) then Inl ValueError
      else
        let g1 = (case seed of Some s \<Rightarrow> np_seeded lib s | None \<Rightarrow> g)
        in if fst shape < 0 \<or> snd shape < 0 then Inl ValueError
           else
             (case octave_loop lib (nat (fst shape)) (nat (snd shape)) (fst res) (snd res)
                     persistence seed (nat octaves) 0 (\<lambda>i j. 0) 1 0 g1 of
                Inl e \<Rightarrow> Inl e
              | Inr (tot, max_amp, g2) \<Rightarrow>
                  Inr (\<lparr>n_rows = nat (fst shape), n_cols = nat (snd shape),
                        n_at = (if max_amp \<noteq> 0 then (\<lambda>i j. tot i j / max_amp) else tot)\<rparr>,
                       g2)))"

section \<open>flow_field.py\<close>

type_synonym rgb = "int \<times> int \<times> int"

type_synonym point = "real \<times> real"

record bounds =
  x0 :: real
  y0 :: real
  x1 :: real
  y1 :: real

text \<open>
  The \<open>params\<close> dictionary. Keys read with \<open>params[...]\<close> are fields; keys read with
  \<open>params.get(..., default)\<close> are optional fields. The fields are typed as the callers
  fill them (numbers, strings, lists of RGB triples), so the \<open>TypeError\<close> fallbacks of
  \<open>fill_angles\<close> for non-numeric values do not arise. An absent \<open>color_lut\<close> reads as
  the empty list (\<open>params.get('color_lut') or []\<close>).
\<close>

record params =
  width :: int
  height :: int
  cell_size :: real
  margin_factor :: real
  noise_scale :: "real option"
  octaves :: "int option"
  seed :: "int option"
  quantize_steps :: "int option"
  swirl :: "real option"
  seeding :: string
  density :: real
  max_length :: int
  step_size :: real
  angle_gain :: real
  jitter :: real
  color_lut :: "rgb list"
  palette_axis :: "string option"
  palette_within_stroke :: "real option"
  color_start :: rgb
  width_start :: real
  width_end :: real
  background :: rgb

text \<open>
  \<open>build_grid\<close>: the division by \<open>cell\<close> raises ZeroDivisionError for a zero cell
  size, \<open>np.zeros((ny, nx))\<close> raises ValueError for a negative dimension.
\<close>

definition build_grid :: "params \<Rightarrow> py_error + (ndarray \<times> bounds)" where
  "build_grid p =
     (let margin = of_int (min (width p) (height p)) * margin_factor p
      in if cell_size p = 0 then Inl ZeroDivisionError
         else
           let nx = py_int ((of_int (width p) - 2 * margin) / cell_size p);
               ny = py_int ((of_int (height p) - 2 * margin) / cell_size p)
           in if ny < 0 \<or> nx < 0 then Inl ValueError
              else Inr (\<lparr>n_rows = nat ny, n_cols = nat nx, n_at = (\<lambda>i j. 0)\<rparr>,
                        \<lparr>x0 = margin, y0 = margin,
                         x1 = of_int (width p) - margin, y1 = of_int (height p) - margin\<rparr>))"

text \<open>
  \<open>fill_angles(angles, bounds, params)\<close>. The assignments \<open>angles[:] = ...\<close> and
  \<open>angles += ...\<close> write into the array object the caller passed; the two
  assignments of the quantization branch, \<open>angles = np.round(...)\<close> and
  \<open>angles = angles * 2*np.pi / ...\<close>, bind the local name to new arrays and leave the
  caller's object alone. The result is therefore a pair: the caller's array after the
  call, and the array the function returns (the same object when nothing is quantized).
\<close>

definition fill_angles ::
  "prng_lib \<Rightarrow> ndarray \<Rightarrow> params \<Rightarrow> rng \<Rightarrow> py_error + (ndarray \<times> ndarray \<times> rng)" where
  "fill_angles lib angles p g =
     (let ny = n_rows angles;
          nx = n_cols angles;
          scale = py_int (max 2 (case noise_scale p of None \<Rightarrow> 4 | Some r \<Rightarrow> r));
          octs = max 1 (min 10 (case octaves p of None \<Rightarrow> 1 | Some k \<Rightarrow> k))
      in case generate_perlin_noise_2d lib (int ny, int nx) (scale, scale) octs (1 / 2) (seed p) g of
           Inl e \<Rightarrow> Inl e
         | Inr (noise, g') \<Rightarrow>
             let sw = (case swirl p of None \<Rightarrow> 0 | Some s \<Rightarrow> s);
                 qs = (case quantize_steps p of None \<Rightarrow> 0 | Some q \<Rightarrow> q);
                 a1 = (\<lambda>i j. n_at noise i j * 2 * pi);
                 a2 = (if 0 < sw
                       then (\<lambda>i j. a1 i j + arctan2 (real i - real ny / 2) (real j - real nx / 2) * sw)
                       else a1);
                 in_place = angles\<lparr>n_at := a2\<rparr>;
                 returned =
                   (if 0 < qs
                    then angles\<lparr>n_at := (\<lambda>i j. of_int (np_round (a2 i j / (2 * pi) * of_int qs))
                                                   * 2 * pi / of_int qs)\<rparr>
                    else in_place)
             in Inr (in_place, returned, g'))"

text \<open>The loop of the random branch of \<open>seed_points\<close>: two draws per point.\<close>

fun random_points :: "nat \<Rightarrow> bounds \<Rightarrow> rng \<Rightarrow> point list \<times> rng" where
  "random_points 0 b g = ([], g)"
| "random_points (Suc n) b g =
     (let x = fst (py_uniform (x0 b) (x1 b) g);
          g1 = snd (py_uniform (x0 b) (x1 b) g);
          y = fst (py_uniform (y0 b) (y1 b) g1);
          g2 = snd (py_uniform (y0 b) (y1 b) g1);
          rest = random_points n b g2
      in ((x, y) # fst rest, snd rest))"

text \<open>\<open>np.arange(start, stop, step)\<close> has \<open>ceil((stop - start) / step)\<close> elements.\<close>

definition np_arange :: "real \<Rightarrow> real \<Rightarrow> real \<Rightarrow> py_error + real list" where
  "np_arange start stop step =
     (if step = 0 then Inl ZeroDivisionError
      else Inr (map (\<lambda>k. start + real k * step) [0..<nat \<lceil>(stop - start) / step\<rceil>]))"

text \<open>
  \<open>seed_points\<close>; a point is \<open>(x, y)\<close> (the third component of the source's triples is
  always \<open>None\<close>). Any other seeding mode gives no points.
\<close>

definition seed_points :: "params \<Rightarrow> bounds \<Rightarrow> rng \<Rightarrow> py_error + (point list \<times> rng)" where
  "seed_points p b g =
     (let area = (x1 b - x0 b) * (y1 b - y0 b)
      in if seeding p = ''random''
         then Inr (random_points (nat (py_int (area * density p))) b g)
         else if seeding p = ''grid''
         then (if density p = 0 then Inl ZeroDivisionError
               else if area / density p < 0 then Inl ValueError
               else
                 let spacing = sqrt (area / density p)
                 in case np_arange (y0 b) (y1 b) spacing of
                      Inl e \<Rightarrow> Inl e
                    | Inr ys \<Rightarrow>
                        (case np_arange (x0 b) (x1 b) spacing of
                           Inl e \<Rightarrow> Inl e
                         | Inr xs \<Rightarrow> Inr (concat (map (\<lambda>y. map (\<lambda>x. (x, y)) xs) ys), g)))
         else Inr ([], g))"

definition get_field_angle :: "ndarray \<Rightarrow> bounds \<Rightarrow> params \<Rightarrow> real \<Rightarrow> real \<Rightarrow> py_error + real" where
  "get_field_angle angles b p x y =
     (if cell_size p = 0 then Inl ZeroDivisionError
      else
        let gx = py_int ((x - x0 b) / cell_size p);
            gy = py_int ((y - y0 b) / cell_size p)
        in if 0 \<le> gy \<and> gy < int (n_rows angles) \<and> 0 \<le> gx \<and> gx < int (n_cols angles)
           then Inr (n_at angles (nat gy) (nat gx))
           else Inr 0)"

text \<open>Line 176: \<open>bounds.x0 <= x <= bounds.x1 and bounds.y0 <= y <= bounds.y1\<close>.\<close>

definition in_bounds :: "bounds \<Rightarrow> point \<Rightarrow> bool" where
  "in_bounds b pt = (x0 b \<le> fst pt \<and> fst pt \<le> x1 b \<and> y0 b \<le> snd pt \<and> snd pt \<le> y1 b)"

text \<open>
  The loop \<open>for _ in range(int(params['max_length']))\<close> of one stroke, with \<open>n\<close> steps
  left: it stops early (\<open>break\<close>) when the candidate position leaves the bounds.
\<close>

fun follow ::
  "ndarray \<Rightarrow> bounds \<Rightarrow> params \<Rightarrow> nat \<Rightarrow> real \<Rightarrow> real \<Rightarrow> real \<Rightarrow> point list \<Rightarrow> rng
     \<Rightarrow> py_error + (point list \<times> rng)" where
  "follow angles b p 0 x y heading positions g = Inr (positions, g)"
| "follow angles b p (Suc n) x y heading positions g =
     (case get_field_angle angles b p x y of
        Inl e \<Rightarrow> Inl e
      | Inr field_angle \<Rightarrow>
          let heading1 = heading * (1 - angle_gain p) + field_angle * angle_gain p;
              heading2 = heading1 + fst (py_uniform (- jitter p) (jitter p) g);
              g' = snd (py_uniform (- jitter p) (jitter p) g);
              x' = x + cos heading2 * step_size p;
              y' = y + sin heading2 * step_size p
          in if \<not> in_bounds b (x', y')
             then Inr (positions, g')
             else follow angles b p n x' y' heading2 (positions @ [(x', y')]) g')"

text \<open>The positions of the stroke that starts at \<open>(sx, sy)\<close> (lines 156 to 179).\<close>

definition trace_stroke ::
  "ndarray \<Rightarrow> bounds \<Rightarrow> params \<Rightarrow> real \<Rightarrow> real \<Rightarrow> rng \<Rightarrow> py_error + (point list \<times> rng)" where
  "trace_stroke angles b p sx sy g =
     (case get_field_angle angles b p sx sy of
        Inl e \<Rightarrow> Inl e
      | Inr heading \<Rightarrow> follow angles b p (nat (max_length p)) sx sy heading [(sx, sy)] g)"

text \<open>
  The canvas is the image \<open>Image.new('RGB', (width, height), background)\<close> together
  with the \<open>draw.line\<close> calls made on it, in order: the points of the segment, its
  fill colour and its integer width. Pillow's rasterizer is library code and a function
  of exactly these data, so two canvases that are equal here are equal byte for byte.
\<close>

record canvas =
  c_width :: int
  c_height :: int
  c_background :: rgb
  c_lines :: "(point list \<times> rgb \<times> int) list"

text \<open>\<open>lut[idx]\<close> on a Python list: a negative index counts from the end.\<close>

definition lut_get :: "rgb list \<Rightarrow> int \<Rightarrow> py_error + rgb" where
  "lut_get lut idx =
     (let n = int (length lut);
          k = (if idx < 0 then n + idx else idx)
      in if 0 \<le> k \<and> k < n then Inr (lut ! nat k) else Inl IndexError)"

text \<open>
  The base metric of a stroke (lines 185 to 197), clamped to \<open>[0, 1]\<close>; the
  \<open>random\<close> axis takes one draw from the global generator.
\<close>

definition stroke_base ::
  "ndarray \<Rightarrow> bounds \<Rightarrow> params \<Rightarrow> real \<Rightarrow> real \<Rightarrow> rng \<Rightarrow> py_error + (real \<times> rng)" where
  "stroke_base angles b p sx sy g =
     (let axis = (case palette_axis p of None \<Rightarrow> ''x'' | Some a \<Rightarrow> a)
      in if axis = ''y''
         then Inr (max 0 (min 1 ((sy - y0 b) / max 1 (y1 b - y0 b))), g)
         else if axis = ''field''
         then (case get_field_angle angles b p sx sy of
                 Inl e \<Rightarrow> Inl e
               | Inr angle \<Rightarrow> Inr (max 0 (min 1 (py_fmod angle (2 * pi) / (2 * pi))), g))
         else if axis = ''random''
         then Inr (max 0 (min 1 (fst (py_random g))), snd (py_random g))
         else Inr (max 0 (min 1 ((sx - x0 b) / max 1 (x1 b - x0 b))), g))"

text \<open>Lines 201 to 210: the span and the base index of a stroke.\<close>

definition stroke_span :: "int \<Rightarrow> real \<Rightarrow> int" where
  "stroke_span lut_len within_stroke =
     (if lut_len \<le> 1 then 0 else max 0 (py_int (of_int (lut_len - 1) * within_stroke)))"

definition stroke_base_idx :: "int \<Rightarrow> real \<Rightarrow> real \<Rightarrow> int" where
  "stroke_base_idx lut_len within_stroke base =
     (if lut_len \<le> 1 then 0
      else py_int (base * of_int (max 0 ((lut_len - 1) - stroke_span lut_len within_stroke))))"

text \<open>Lines 216 to 218: the index of the segment at progress \<open>t\<close>.\<close>

definition segment_idx :: "int \<Rightarrow> real \<Rightarrow> real \<Rightarrow> real \<Rightarrow> int" where
  "segment_idx lut_len within_stroke base t =
     (let idx = stroke_base_idx lut_len within_stroke base
                + py_int (t * of_int (stroke_span lut_len within_stroke))
      in if lut_len \<le> idx then lut_len - 1 else idx)"

definition segment_color :: "params \<Rightarrow> real \<Rightarrow> real \<Rightarrow> py_error + rgb" where
  "segment_color p base t =
     (let lut = color_lut p;
          lut_len = int (length lut);
          within_stroke = (case palette_within_stroke p of None \<Rightarrow> 0 | Some r \<Rightarrow> r)
      in if 0 < lut_len then lut_get lut (segment_idx lut_len within_stroke base t)
         else Inr (color_start p))"

text \<open>The loop \<open>for i in range(len(positions) - 1)\<close>, over the list of its indices.\<close>

fun draw_segments :: "params \<Rightarrow> point list \<Rightarrow> real \<Rightarrow> nat list \<Rightarrow> canvas \<Rightarrow> py_error + canvas" where
  "draw_segments p positions base [] c = Inr c"
| "draw_segments p positions base (i # rest) c =
     (let t = real i / real (length positions - 1)
      in case segment_color p base t of
           Inl e \<Rightarrow> Inl e
         | Inr color \<Rightarrow>
             let wd = width_start p + (width_end p - width_start p) * t
             in draw_segments p positions base rest
                  (c\<lparr>c_lines := c_lines c @ [(take 2 (drop i positions), color, py_int wd)]\<rparr>))"

text \<open>Lines 182 to 225: a stroke with a single position is not drawn.\<close>

definition draw_stroke ::
  "ndarray \<Rightarrow> bounds \<Rightarrow> params \<Rightarrow> real \<Rightarrow> real \<Rightarrow> point list \<Rightarrow> canvas \<Rightarrow> rng
     \<Rightarrow> py_error + (canvas \<times> rng)" where
  "draw_stroke angles b p sx sy positions c g =
     (if 1 < length positions
      then (case stroke_base angles b p sx sy g of
              Inl e \<Rightarrow> Inl e
            | Inr (base, g') \<Rightarrow>
                (case draw_segments p positions base [0..<length positions - 1] c of
                   Inl e \<Rightarrow> Inl e
                 | Inr c' \<Rightarrow> Inr (c', g')))
      else Inr (c, g))"

text \<open>The loop \<open>for x0, y0, _ in points\<close>.\<close>

fun stroke_loop ::
  "ndarray \<Rightarrow> bounds \<Rightarrow> params \<Rightarrow> point list \<Rightarrow> canvas \<Rightarrow> rng \<Rightarrow> py_error + (canvas \<times> rng)" where
  "stroke_loop angles b p [] c g = Inr (c, g)"
| "stroke_loop angles b p (pt # pts) c g =
     (case trace_stroke angles b p (fst pt) (snd pt) g of
        Inl e \<Rightarrow> Inl e
      | Inr (positions, g1) \<Rightarrow>
          (case draw_stroke angles b p (fst pt) (snd pt) positions c g1 of
             Inl e \<Rightarrow> Inl e
           | Inr (c', g2) \<Rightarrow> stroke_loop angles b p pts c' g2))"

text \<open>\<open>draw_strokes\<close>; \<open>Image.new\<close> raises ValueError for a negative size.\<close>

definition draw_strokes ::
  "ndarray \<Rightarrow> bounds \<Rightarrow> params \<Rightarrow> rng \<Rightarrow> py_error + (canvas \<times> rng)" where
  "draw_strokes angles b p g =
     (if width p < 0 \<or> height p < 0 then Inl ValueError
      else (case seed_points p b g of
              Inl e \<Rightarrow> Inl e
            | Inr (points, g1) \<Rightarrow>
                stroke_loop angles b p points
                  \<lparr>c_width = width p, c_height = height p, c_background = background p,
                   c_lines = []\<rparr> g1))"

text \<open>
  \<open>render\<close>, on the process state \<open>s\<close> (both global generators). \<open>render_grid\<close> is its
  first part, lines 236 to 240: the array and bounds that \<open>draw_strokes\<close> is then given.
  The call \<open>fill_angles(*grid, params)\<close> is a statement: what it returns is dropped, and
  \<open>draw_strokes\<close> receives \<open>grid[0]\<close>, the array object made by \<open>build_grid\<close>.
\<close>

definition render_grid :: "prng_lib \<Rightarrow> params \<Rightarrow> gstate \<Rightarrow> py_error + (ndarray \<times> bounds \<times> gstate)" where
  "render_grid lib p s =
     (let s1 = (case seed p of Some k \<Rightarrow> s\<lparr>py_rng := py_seeded lib k\<rparr> | None \<Rightarrow> s)
      in case build_grid p of
           Inl e \<Rightarrow> Inl e
         | Inr (angles, b) \<Rightarrow>
             (case fill_angles lib angles p (np_rng s1) of
                Inl e \<Rightarrow> Inl e
              | Inr (in_place, returned, g') \<Rightarrow> Inr (in_place, b, s1\<lparr>np_rng := g'\<rparr>)))"

definition render :: "prng_lib \<Rightarrow> params \<Rightarrow> gstate \<Rightarrow> py_error + (canvas \<times> gstate)" where
  "render lib p s =
     (case render_grid lib p s of
        Inl e \<Rightarrow> Inl e
      | Inr (angles, b, s1) \<Rightarrow>
          (case draw_strokes angles b p (py_rng s1) of
             Inl e \<Rightarrow> Inl e
           | Inr (img, g) \<Rightarrow> Inr (img, s1\<lparr>py_rng := g\<rparr>)))"

section \<open>The colorizer as the specification words it\<close>

text \<open>
  The specification's colorizer, with the rounding function left open: span is
  \<open>round((L-1) * palette_within_stroke)\<close> clamped to \<open>[0, L-1]\<close>, the base index is
  \<open>round(base * (L-1-span))\<close>, and the index of a segment is
  \<open>clamp(base_index + round(t*span), 0, L-1)\<close>.
\<close>

definition clamp_int :: "int \<Rightarrow> int \<Rightarrow> int \<Rightarrow> int" where
  "clamp_int x lo hi = max lo (min hi x)"

definition spec_span :: "(real \<Rightarrow> int) \<Rightarrow> int \<Rightarrow> real \<Rightarrow> int" where
  "spec_span rnd L ws = clamp_int (rnd (of_int (L - 1) * ws)) 0 (L - 1)"

definition spec_base_index :: "(real \<Rightarrow> int) \<Rightarrow> int \<Rightarrow> real \<Rightarrow> real \<Rightarrow> int" where
  "spec_base_index rnd L ws base = rnd (base * of_int (L - 1 - spec_span rnd L ws))"

definition spec_segment_idx :: "(real \<Rightarrow> int) \<Rightarrow> int \<Rightarrow> real \<Rightarrow> real \<Rightarrow> real \<Rightarrow> int" where
  "spec_segment_idx rnd L ws base t =
     clamp_int (spec_base_index rnd L ws base + rnd (t * of_int (spec_span rnd L ws))) 0 (L - 1)"

section \<open>Concrete inputs\<close>

text \<open>
  A generator whose every draw is 0, a 200 by 200 configuration with a margin of 20 and
  cells of 20 (an 8 by 8 grid over the bounds from 20 to 180), and variations of it.
\<close>

definition demo_rng :: rng where
  "demo_rng = (\<lambda>n. 0)"

definition demo_params :: params where
  "demo_params =
     \<lparr>width = 200, height = 200, cell_size = 20, margin_factor = 1 / 10,
      noise_scale = Some 2, octaves = Some 1, seed = Some 1, quantize_steps = Some 4,
      swirl = None, seeding = ''random'', density = 1 / 20000, max_length = 2,
      step_size = 5, angle_gain = 1 / 2, jitter = 0,
      color_lut = [(10, 10, 10), (200, 200, 200)], palette_axis = None,
      palette_within_stroke = Some (1 / 2), color_start = (0, 0, 0),
      width_start = 2, width_end = 2, background = (255, 255, 255)\<rparr>"

definition demo_bounds :: bounds where
  "demo_bounds = \<lparr>x0 = 20, y0 = 20, x1 = 180, y1 = 180\<rparr>"

definition flat_grid :: ndarray where
  "flat_grid = \<lparr>n_rows = 8, n_cols = 8, n_at = (\<lambda>i j. 0)\<rparr>"

definition blank_canvas :: canvas where
  "blank_canvas =
     \<lparr>c_width = 200, c_height = 200, c_background = (255, 255, 255), c_lines = []\<rparr>"

definition still_params :: params where
  "still_params = demo_params\<lparr>step_size := 0\<rparr>"

definition short_params :: params where
  "short_params = demo_params\<lparr>max_length := 0\<rparr>"

definition dense_params :: params where
  "dense_params = demo_params\<lparr>density := 3 / 50000\<rparr>"

definition demo_lib :: prng_lib where
  "demo_lib = \<lparr>py_seeded = (\<lambda>k. demo_rng), np_seeded = (\<lambda>k. demo_rng)\<rparr>"

text \<open>
  With all draws 0 every lattice gradient is \<open>(1, 0)\<close>; this is the one-octave field on
  an 8 by 8 grid with base resolution 2.
\<close>

definition demo_noise :: ndarray where
  "demo_noise = \<lparr>n_rows = 8, n_cols = 8, n_at = octave_value demo_rng 8 8 2 2\<rparr>"

text \<open>
  What \<open>fill_angles\<close> does to the grid of the demo configuration: the array it writes
  in place, and the snapped array it returns (four quantization steps).
\<close>

definition demo_angles :: ndarray where
  "demo_angles =
     \<lparr>n_rows = 8, n_cols = 8, n_at = (\<lambda>i j. octave_value demo_rng 8 8 2 2 i j * 2 * pi)\<rparr>"

definition demo_snapped :: ndarray where
  "demo_snapped =
     \<lparr>n_rows = 8, n_cols = 8,
      n_at = (\<lambda>i j. of_int (np_round (n_at demo_angles i j / (2 * pi) * 4)) * 2 * pi / 4)\<rparr>"

definition zero_state :: gstate where
  "zero_state = \<lparr>py_rng = demo_rng, np_rng = demo_rng\<rparr>"

definition half_state :: gstate where
  "half_state = \<lparr>py_rng = (\<lambda>n. 1 / 2), np_rng = (\<lambda>n. 1 / 2)\<rparr>"

definition demo_canvas :: canvas where
  "demo_canvas =
     blank_canvas\<lparr>c_lines := [([(20, 20), (25, 20)], (10, 10, 10), 2),
                               ([(25, 20), (30, 20)], (10, 10, 10), 2)]\<rparr>"

text \<open>
  A 100 by 100 canvas whose margin is exactly half of it (50), and one whose margin
  factor is 0.6 (margin 60).
\<close>

definition half_margin_params :: params where
  "half_margin_params = demo_params\<lparr>width := 100, height := 100, margin_factor := 1 / 2\<rparr>"

definition wide_margin_params :: params where
  "wide_margin_params = demo_params\<lparr>width := 100, height := 100, margin_factor := 3 / 5\<rparr>"

definition small_blank_canvas :: canvas where
  "small_blank_canvas =
     \<lparr>c_width = 100, c_height = 100, c_background = (255, 255, 255), c_lines = []\<rparr>"

section \<open>Truncation and rounding\<close>

lemma py_int_nonneg: "0 \<le> x \<Longrightarrow> 0 \<le> py_int x"
  by (simp add: py_int_def)

lemma py_int_le: "0 \<le> x \<Longrightarrow> x \<le> of_int n \<Longrightarrow> py_int x \<le> n"
  by (simp add: py_int_def floor_le_iff)

lemma py_int_nonpos: "x \<le> 0 \<Longrightarrow> py_int x \<le> 0"
  by (simp add: py_int_def)

lemma advance_demo_rng: "advance n demo_rng = demo_rng"
  by (simp add: advance_def demo_rng_def)

section \<open>The colorizer\<close>

lemma stroke_span_nonneg: "0 \<le> stroke_span L w"
  by (simp add: stroke_span_def)

lemma stroke_base_idx_nonneg: "0 \<le> base \<Longrightarrow> 0 \<le> stroke_base_idx L w base"
  by (simp add: stroke_base_idx_def py_int_nonneg)

lemma segment_idx_range:
  assumes "1 \<le> L" "0 \<le> base" "0 \<le> t"
  shows "0 \<le> segment_idx L w base t \<and> segment_idx L w base t \<le> L - 1"
proof -
  have "0 \<le> py_int (t * of_int (stroke_span L w))"
    using assms stroke_span_nonneg [of L w] by (intro py_int_nonneg) simp
  with stroke_base_idx_nonneg [OF assms(2), of L w] assms(1)
  show ?thesis by (simp add: segment_idx_def Let_def)
qed

lemma stroke_span_le:
  assumes "2 \<le> L" "w \<le> 1"
  shows "stroke_span L w \<le> L - 1"
proof (cases "0 \<le> w")
  case True
  have "of_int (L - 1) * w \<le> of_int (L - 1)"
    using assms by (simp add: mult_left_le)
  moreover have "0 \<le> of_int (L - 1) * w"
    using assms True by simp
  ultimately have "py_int (of_int (L - 1) * w) \<le> L - 1"
    by (rule py_int_le [rotated])
  then show ?thesis using assms by (simp add: stroke_span_def)
next
  case False
  then have "of_int (L - 1) * w \<le> 0"
    using assms by (simp add: mult_nonneg_nonpos)
  then have "py_int (of_int (L - 1) * w) \<le> 0"
    by (rule py_int_nonpos)
  then show ?thesis using assms by (simp add: stroke_span_def)
qed

lemma stroke_span_spec:
  assumes "2 \<le> L" "w \<le> 1"
  shows "stroke_span L w = spec_span py_int L w"
  using stroke_span_le [OF assms] assms(1)
  by (simp add: stroke_span_def spec_span_def clamp_int_def)

lemma stroke_base_idx_spec:
  assumes "2 \<le> L" "w \<le> 1"
  shows "stroke_base_idx L w base = spec_base_index py_int L w base"
  using stroke_span_le [OF assms] assms(1)
  by (simp add: stroke_base_idx_def spec_base_index_def stroke_span_spec [OF assms, symmetric])

lemma segment_idx_spec:
  assumes "2 \<le> L" "w \<le> 1" "0 \<le> base" "0 \<le> t"
  shows "segment_idx L w base t = spec_segment_idx py_int L w base t"
proof -
  have r: "0 \<le> segment_idx L w base t"
    using segment_idx_range [of L base t w] assms by simp
  show ?thesis
    unfolding spec_segment_idx_def stroke_span_spec [OF assms(1,2), symmetric]
      stroke_base_idx_spec [OF assms(1,2), symmetric]
    using r by (auto simp add: segment_idx_def clamp_int_def Let_def)
qed

lemma lut_get_in_range:
  "0 \<le> idx \<Longrightarrow> idx < int (length lut) \<Longrightarrow> lut_get lut idx = Inr (lut ! nat idx)"
  by (simp add: lut_get_def)

text \<open>
  Claim C7, as amended. For a lookup table of length \<open>L \<ge> 2\<close>, a
  \<open>palette_within_stroke\<close> of at most 1, a base metric \<open>base \<ge> 0\<close> and a progress
  \<open>t \<ge> 0\<close>, the code computes the specification's span, base index and clamped segment
  index with truncation toward zero (\<open>int()\<close>) in the place of \<open>round\<close>, and the segment's
  colour is the table's entry at that index.
\<close>

theorem colorizer_truncating:
  assumes "L = int (length (color_lut p))" and "2 \<le> L"
    and "ws = (case palette_within_stroke p of None \<Rightarrow> 0 | Some r \<Rightarrow> r)" and "ws \<le> 1"
    and "0 \<le> base" and "0 \<le> t"
  shows "stroke_span L ws = spec_span py_int L ws
       \<and> stroke_base_idx L ws base = spec_base_index py_int L ws base
       \<and> segment_idx L ws base t = spec_segment_idx py_int L ws base t
       \<and> segment_color p base t = Inr (color_lut p ! nat (spec_segment_idx py_int L ws base t))"
proof -
  have i: "segment_idx L ws base t = spec_segment_idx py_int L ws base t"
    using assms(2,4,5,6) by (rule segment_idx_spec)
  have "0 \<le> segment_idx L ws base t \<and> segment_idx L ws base t \<le> L - 1"
    using assms(2,5,6) by (intro segment_idx_range) simp_all
  then have "lut_get (color_lut p) (segment_idx L ws base t)
             = Inr (color_lut p ! nat (segment_idx L ws base t))"
    using assms(1) by (intro lut_get_in_range) simp_all
  then have "segment_color p base t = Inr (color_lut p ! nat (segment_idx L ws base t))"
    using assms(1,2,3) by (auto simp add: segment_color_def Let_def)
  with i stroke_span_spec [OF assms(2,4)] stroke_base_idx_spec [OF assms(2,4)]
  show ?thesis by simp
qed

theorem colorizer_truncating_witness:
  "stroke_span 2 (1 / 2) = spec_span py_int 2 (1 / 2)
   \<and> stroke_base_idx 2 (1 / 2) 1 = spec_base_index py_int 2 (1 / 2) 1
   \<and> segment_idx 2 (1 / 2) 1 (1 / 2) = spec_segment_idx py_int 2 (1 / 2) 1 (1 / 2)
   \<and> segment_color demo_params 1 (1 / 2) = Inr (200, 200, 200)"
proof -
  have a: "(2::int) = int (length (color_lut demo_params))"
    by (simp add: demo_params_def)
  have b: "(1 / 2 :: real) = (case palette_within_stroke demo_params of None \<Rightarrow> 0 | Some r \<Rightarrow> r)"
    by (simp add: demo_params_def)
  have c: "spec_segment_idx py_int 2 (1 / 2) 1 (1 / 2) = 1"
    by (simp add: spec_segment_idx_def spec_base_index_def spec_span_def clamp_int_def py_int_def)
  have d: "color_lut demo_params ! nat 1 = (200, 200, 200)"
    by (simp add: demo_params_def)
  from colorizer_truncating [OF a _ b, of 1 "1 / 2"] c d show ?thesis by simp
qed

text \<open>
  Claim C7 as stated fails: for a table of 256 colours, \<open>palette_within_stroke = 0.5\<close>,
  base metric 0 and progress 0.5 the code's span is \<open>int(127.5) = 127\<close> and its index
  \<open>int(63.5) = 63\<close>, where rounding gives the span 128 and the index 64.
\<close>

theorem colorizer_round_counterexample:
  "stroke_span 256 (1 / 2) = 127 \<and> spec_span np_round 256 (1 / 2) = 128
   \<and> segment_idx 256 (1 / 2) 0 (1 / 2) = 63
   \<and> spec_segment_idx np_round 256 (1 / 2) 0 (1 / 2) = 64"
  by (simp add: segment_idx_def stroke_base_idx_def stroke_span_def py_int_def
      spec_segment_idx_def spec_base_index_def spec_span_def clamp_int_def np_round_def Let_def)

text \<open>
  Claim C10. For a lookup table of length \<open>L \<ge> 1\<close> and any \<open>palette_within_stroke\<close>,
  also outside \<open>[0, 1]\<close>, the index of every segment (the base metric clamped to
  \<open>[0, 1]\<close> as line 197 does, the progress \<open>i / m\<close> of segment \<open>i\<close>) lies in
  \<open>[0, L - 1]\<close>, and the lookup returns the table's entry at that index without an
  IndexError.
\<close>

theorem lut_index_in_range:
  assumes "lut \<noteq> []"
  shows "0 \<le> segment_idx (int (length lut)) ws (max 0 (min 1 raw)) (real i / real m)
       \<and> segment_idx (int (length lut)) ws (max 0 (min 1 raw)) (real i / real m)
           \<le> int (length lut) - 1
       \<and> lut_get lut (segment_idx (int (length lut)) ws (max 0 (min 1 raw)) (real i / real m))
           = Inr (lut ! nat (segment_idx (int (length lut)) ws (max 0 (min 1 raw))
                               (real i / real m)))"
proof -
  have L: "1 \<le> int (length lut)"
    using assms by (cases lut) simp_all
  have r: "0 \<le> segment_idx (int (length lut)) ws (max 0 (min 1 raw)) (real i / real m)
         \<and> segment_idx (int (length lut)) ws (max 0 (min 1 raw)) (real i / real m)
             \<le> int (length lut) - 1"
    using L by (intro segment_idx_range) simp_all
  then show ?thesis by (simp add: lut_get_in_range)
qed

theorem lut_index_in_range_witness:
  "[(10, 10, 10), (200, 200, 200)] \<noteq> ([] :: rgb list)
   \<and> segment_idx 2 7 (max 0 (min 1 3)) (real 1 / real 2) = 1
   \<and> lut_get [(10, 10, 10), (200, 200, 200)] (segment_idx 2 7 (max 0 (min 1 3)) (real 1 / real 2))
       = Inr (200, 200, 200)"
proof -
  have a: "[(10, 10, 10), (200, 200, 200)] \<noteq> ([] :: rgb list)"
    by simp
  have b: "segment_idx 2 7 (max 0 (min 1 3)) (real 1 / real 2) = 1"
    by (simp add: segment_idx_def stroke_base_idx_def stroke_span_def py_int_def)
  from lut_index_in_range [OF a, of 7 3 1 2] a b show ?thesis by simp
qed

section \<open>Seed points\<close>

lemma random_points_length: "length (fst (random_points n b g)) = n"
  by (induction n arbitrary: g) (simp_all add: Let_def)

text \<open>
  Claim C8, as amended. In random seeding mode \<open>seed_points\<close> returns, and the number
  of start points is \<open>int(area * density)\<close>, the product truncated toward zero (no
  point when it is negative), where \<open>area\<close> is the area of the bounds rectangle.
\<close>

theorem random_seeding_count:
  assumes "seeding p = ''random''"
  shows "\<exists>pts g'. seed_points p b g = Inr (pts, g')
           \<and> length pts = nat (py_int ((x1 b - x0 b) * (y1 b - y0 b) * density p))"
proof -
  let ?n = "nat (py_int ((x1 b - x0 b) * (y1 b - y0 b) * density p))"
  have "seed_points p b g = Inr (fst (random_points ?n b g), snd (random_points ?n b g))"
    using assms by (simp add: seed_points_def Let_def)
  then show ?thesis
    using random_points_length [of ?n b g] by blast
qed

theorem random_seeding_count_witness:
  "seeding demo_params = ''random''
   \<and> (\<exists>pts g'. seed_points demo_params demo_bounds demo_rng = Inr (pts, g') \<and> length pts = 1)"
proof -
  have a: "seeding demo_params = ''random''"
    by (simp add: demo_params_def)
  have b: "nat (py_int ((x1 demo_bounds - x0 demo_bounds) * (y1 demo_bounds - y0 demo_bounds)
                        * density demo_params)) = 1"
    by (simp add: demo_params_def demo_bounds_def py_int_def)
  from random_seeding_count [OF a, of demo_bounds demo_rng] a b show ?thesis by simp
qed

text \<open>
  Claim C8 as stated fails: on the bounds from 20 to 180 (area 25600) with density
  \<open>3/50000\<close> the product is 1.536, which rounds to 2, and the code seeds one point.
\<close>

theorem random_seeding_round_counterexample:
  "seeding dense_params = ''random''
   \<and> seed_points dense_params demo_bounds demo_rng = Inr ([(20, 20)], demo_rng)
   \<and> np_round ((x1 demo_bounds - x0 demo_bounds) * (y1 demo_bounds - y0 demo_bounds)
                * density dense_params) = 2"
proof -
  have "nat (py_int ((x1 demo_bounds - x0 demo_bounds) * (y1 demo_bounds - y0 demo_bounds)
                     * density dense_params)) = Suc 0"
    by (simp add: dense_params_def demo_params_def demo_bounds_def py_int_def)
  then have "seed_points dense_params demo_bounds demo_rng = Inr ([(20, 20)], demo_rng)"
    by (simp add: seed_points_def Let_def dense_params_def demo_params_def py_uniform_def
        advance_demo_rng)
       (simp add: demo_bounds_def demo_rng_def)
  moreover have "np_round ((x1 demo_bounds - x0 demo_bounds) * (y1 demo_bounds - y0 demo_bounds)
                           * density dense_params) = 2"
    by (simp add: dense_params_def demo_params_def demo_bounds_def np_round_def Let_def)
  ultimately show ?thesis
    by (simp add: dense_params_def demo_params_def)
qed

section \<open>Tracing a stroke\<close>

lemma follow_inv:
  "follow angles b p n x y h ps g = Inr (ps', g') \<Longrightarrow> \<forall>q\<in>set ps. in_bounds b q \<Longrightarrow>
   (\<forall>q\<in>set ps'. in_bounds b q) \<and> length ps' \<le> length ps + n"
proof (induction n arbitrary: x y h ps g)
  case 0
  then show ?case by simp
next
  case (Suc n)
  from Suc.prems(1) obtain fa where fa: "get_field_angle angles b p x y = Inr fa"
    by (cases "get_field_angle angles b p x y") simp_all
  define h2 where
    "h2 = h * (1 - angle_gain p) + fa * angle_gain p + fst (py_uniform (- jitter p) (jitter p) g)"
  define g2 where "g2 = snd (py_uniform (- jitter p) (jitter p) g)"
  define x' where "x' = x + cos h2 * step_size p"
  define y' where "y' = y + sin h2 * step_size p"
  show ?case
  proof (cases "in_bounds b (x', y')")
    case False
    with Suc.prems fa have "ps' = ps"
      by (simp add: Let_def h2_def g2_def x'_def y'_def)
    with Suc.prems(2) show ?thesis by simp
  next
    case True
    with Suc.prems(1) fa
    have "follow angles b p n x' y' h2 (ps @ [(x', y')]) g2 = Inr (ps', g')"
      by (simp add: Let_def h2_def g2_def x'_def y'_def)
    moreover have "\<forall>q\<in>set (ps @ [(x', y')]). in_bounds b q"
      using Suc.prems(2) True by simp
    ultimately
    have "(\<forall>q\<in>set ps'. in_bounds b q) \<and> length ps' \<le> length (ps @ [(x', y')]) + n"
      by (rule Suc.IH)
    then show ?thesis by simp
  qed
qed

text \<open>
  Claim C5. A stroke traced from a seed point inside the bounds records only positions
  inside the bounds, and at most \<open>max_length + 1\<close> of them: the seed and one position
  for each of the \<open>range(int(max_length))\<close> iterations, which are \<open>nat max_length\<close>
  many (none for a negative \<open>max_length\<close>).
\<close>

theorem stroke_within_bounds:
  assumes "in_bounds b (sx, sy)" and "trace_stroke angles b p sx sy g = Inr (ps, g')"
  shows "(\<forall>q\<in>set ps. in_bounds b q) \<and> length ps \<le> nat (max_length p) + 1"
proof -
  from assms(2) obtain h where
    "follow angles b p (nat (max_length p)) sx sy h [(sx, sy)] g = Inr (ps, g')"
    by (auto simp add: trace_stroke_def split: sum.splits)
  from follow_inv [OF this] assms(1) show ?thesis by simp
qed

theorem stroke_within_bounds_witness:
  "in_bounds demo_bounds (172, 20)
   \<and> trace_stroke flat_grid demo_bounds demo_params 172 20 demo_rng
       = Inr ([(172, 20), (177, 20)], demo_rng)
   \<and> in_bounds demo_bounds (177, 20)
   \<and> length [(172 :: real, 20 :: real), (177, 20)] \<le> nat (max_length demo_params) + 1"
proof -
  have a: "in_bounds demo_bounds (172, 20)"
    by (simp add: in_bounds_def demo_bounds_def)
  have b: "trace_stroke flat_grid demo_bounds demo_params 172 20 demo_rng
           = Inr ([(172, 20), (177, 20)], demo_rng)"
    by (simp add: trace_stroke_def get_field_angle_def demo_params_def demo_bounds_def
        flat_grid_def py_int_def eval_nat_numeral Let_def py_uniform_def in_bounds_def
        demo_rng_def advance_def)
  from stroke_within_bounds [OF a b] a b show ?thesis by simp
qed

lemma draw_stroke_single: "draw_stroke angles b p sx sy [pt] c g = Inr (c, g)"
  by (simp add: draw_stroke_def)

text \<open>
  Claim C6, as amended. If \<open>max_length = 0\<close> (and the cell size is not zero, which
  \<open>build_grid\<close> has checked before any stroke is traced), then for every seed point the
  traced stroke has exactly one position, the seed, and drawing it leaves the canvas
  and the generator as they were.
\<close>

theorem zero_length_stroke_not_drawn:
  assumes "max_length p = 0" and "cell_size p \<noteq> 0"
  shows "trace_stroke angles b p sx sy g = Inr ([(sx, sy)], g)
       \<and> draw_stroke angles b p sx sy [(sx, sy)] c g = Inr (c, g)"
  using assms by (simp add: trace_stroke_def get_field_angle_def Let_def draw_stroke_single)

theorem zero_length_stroke_not_drawn_witness:
  "max_length short_params = 0 \<and> cell_size short_params \<noteq> 0
   \<and> trace_stroke flat_grid demo_bounds short_params 20 20 demo_rng = Inr ([(20, 20)], demo_rng)
   \<and> draw_stroke flat_grid demo_bounds short_params 20 20 [(20, 20)] blank_canvas demo_rng
       = Inr (blank_canvas, demo_rng)"
proof -
  have a: "max_length short_params = 0"
    by (simp add: short_params_def demo_params_def)
  have b: "cell_size short_params \<noteq> 0"
    by (simp add: short_params_def demo_params_def)
  from zero_length_stroke_not_drawn [OF a b, of flat_grid demo_bounds 20 20 demo_rng blank_canvas]
    a b show ?thesis by simp
qed

text \<open>
  Claim C6 as stated fails for \<open>step_size = 0\<close>: the position does not move, stays
  inside the bounds and is appended at every step. With \<open>max_length = 2\<close> the stroke
  from the seed \<open>(20, 20)\<close> has three positions and two segments are drawn.
\<close>

theorem zero_step_stroke_counterexample:
  "step_size still_params = 0
   \<and> trace_stroke flat_grid demo_bounds still_params 20 20 demo_rng
       = Inr ([(20, 20), (20, 20), (20, 20)], demo_rng)
   \<and> draw_stroke flat_grid demo_bounds still_params 20 20 [(20, 20), (20, 20), (20, 20)]
         blank_canvas demo_rng
       = Inr (blank_canvas\<lparr>c_lines := [([(20, 20), (20, 20)], (10, 10, 10), 2),
                                        ([(20, 20), (20, 20)], (10, 10, 10), 2)]\<rparr>, demo_rng)"
proof -
  have a: "trace_stroke flat_grid demo_bounds still_params 20 20 demo_rng
           = Inr ([(20, 20), (20, 20), (20, 20)], demo_rng)"
    by (simp add: trace_stroke_def get_field_angle_def still_params_def demo_params_def
        demo_bounds_def flat_grid_def py_int_def eval_nat_numeral Let_def py_uniform_def
        in_bounds_def demo_rng_def advance_def)
  have b: "stroke_base flat_grid demo_bounds still_params 20 20 demo_rng = Inr (0, demo_rng)"
    by (simp add: stroke_base_def still_params_def demo_params_def demo_bounds_def)
  have c: "segment_color still_params 0 t = Inr (10, 10, 10)" if "0 \<le> t" "t < 1" for t
    using that
    by (simp add: segment_color_def still_params_def demo_params_def segment_idx_def
        stroke_base_idx_def stroke_span_def py_int_def lut_get_def Let_def)
  have d: "[0..<length [(20 :: real, 20 :: real), (20, 20), (20, 20)] - 1] = [0, Suc 0]"
    by (simp add: upt_rec)
  have e: "draw_stroke flat_grid demo_bounds still_params 20 20 [(20, 20), (20, 20), (20, 20)]
             blank_canvas demo_rng
           = Inr (blank_canvas\<lparr>c_lines := [([(20, 20), (20, 20)], (10, 10, 10), 2),
                                            ([(20, 20), (20, 20)], (10, 10, 10), 2)]\<rparr>, demo_rng)"
    unfolding draw_stroke_def d
    by (simp add: b c Let_def blank_canvas_def)
       (simp add: still_params_def demo_params_def py_int_def)
  show ?thesis using a e by (simp add: still_params_def)
qed

section \<open>Noise bounds\<close>

lemma interpolant_range:
  assumes "0 \<le> x" "x \<le> 1"
  shows "0 \<le> interpolant x \<and> interpolant x \<le> 1"
proof -
  have q: "0 \<le> x * (x * 6 - 15) + 10"
  proof -
    have "x * (x * 6 - 15) + 10 = 6 * (x - 5 / 4)\<^sup>2 + 5 / 8"
      by (simp add: power2_eq_square algebra_simps)
    then show ?thesis by simp
  qed
  have a: "0 \<le> interpolant x"
    unfolding interpolant_def using assms(1) q by (intro mult_nonneg_nonneg) simp_all
  have "1 - interpolant x = (1 - x) * (1 - x) * (1 - x) * (6 * x\<^sup>2 + 3 * x + 1)"
    by (simp add: interpolant_def power2_eq_square algebra_simps)
  moreover have "0 \<le> (1 - x) * (1 - x) * (1 - x) * (6 * x\<^sup>2 + 3 * x + 1)"
    using assms by (intro mult_nonneg_nonneg) simp_all
  ultimately have "0 \<le> 1 - interpolant x" by simp
  with a show ?thesis by simp
qed

lemma blend_le_half:
  assumes "0 \<le> x" "x \<le> 1"
  shows "x * (1 - interpolant x) + interpolant x * (1 - x) \<le> 1 / 2"
proof -
  have "x * (1 - interpolant x) + interpolant x * (1 - x)
        = 1 / 2 - 2 * (x - 1 / 2)\<^sup>2 * (6 * (x * (1 - x))\<^sup>2 + 2 * (x * (1 - x)) + 1)"
    by (simp add: interpolant_def power2_eq_square algebra_simps)
  moreover have "0 \<le> 2 * (x - 1 / 2)\<^sup>2 * (6 * (x * (1 - x))\<^sup>2 + 2 * (x * (1 - x)) + 1)"
    using assms by (intro mult_nonneg_nonneg add_nonneg_nonneg) simp_all
  ultimately show ?thesis by simp
qed

lemma dot_bound: "\<bar>cos (a::real) * p + sin a * q\<bar> \<le> \<bar>p\<bar> + \<bar>q\<bar>"
proof -
  have "\<bar>cos a * p\<bar> \<le> \<bar>p\<bar>"
    using abs_cos_le_one [of a] by (simp add: abs_mult mult_left_le_one_le)
  moreover have "\<bar>sin a * q\<bar> \<le> \<bar>q\<bar>"
    using abs_sin_le_one [of a] by (simp add: abs_mult mult_left_le_one_le)
  ultimately show ?thesis by linarith
qed

lemma mix_bound:
  assumes "\<bar>a\<bar> \<le> (A::real)" "\<bar>b\<bar> \<le> B" "0 \<le> u" "u \<le> 1"
  shows "\<bar>a * (1 - u) + u * b\<bar> \<le> A * (1 - u) + u * B"
proof -
  have "\<bar>a * (1 - u)\<bar> \<le> A * (1 - u)"
    using assms by (simp add: abs_mult mult_right_mono)
  moreover have "\<bar>u * b\<bar> \<le> u * B"
    using assms by (simp add: abs_mult mult_left_mono)
  ultimately show ?thesis by linarith
qed

lemma frac_part:
  assumes "0 \<le> X"
  shows "0 \<le> X - of_int (py_int X) \<and> X - of_int (py_int X) \<le> 1"
  using assms by (simp add: py_int_def) linarith

lemma octave_value_bound:
  assumes "0 \<le> res_y" "0 \<le> res_x"
  shows "\<bar>octave_value draws h w res_y res_x i j\<bar> \<le> 1"
proof -
  define X where "X = real j * (of_int res_x / real w)"
  define Y where "Y = real i * (of_int res_y / real h)"
  define xf where "xf = X - of_int (py_int X)"
  define yf where "yf = Y - of_int (py_int Y)"
  define u where "u = interpolant xf"
  define v where "v = interpolant yf"
  define a00 where "a00 = lattice_angle draws res_x (py_int Y) (py_int X)"
  define a10 where "a10 = lattice_angle draws res_x (py_int Y) (py_int X + 1)"
  define a01 where "a01 = lattice_angle draws res_x (py_int Y + 1) (py_int X)"
  define a11 where "a11 = lattice_angle draws res_x (py_int Y + 1) (py_int X + 1)"
  define d00 where "d00 = cos a00 * xf + sin a00 * yf"
  define d10 where "d10 = cos a10 * (xf - 1) + sin a10 * yf"
  define d01 where "d01 = cos a01 * xf + sin a01 * (yf - 1)"
  define d11 where "d11 = cos a11 * (xf - 1) + sin a11 * (yf - 1)"
  have X0: "0 \<le> X" unfolding X_def using assms by simp
  have Y0: "0 \<le> Y" unfolding Y_def using assms by simp
  have xr: "0 \<le> xf \<and> xf \<le> 1" unfolding xf_def using X0 by (rule frac_part)
  have yr: "0 \<le> yf \<and> yf \<le> 1" unfolding yf_def using Y0 by (rule frac_part)
  have ur: "0 \<le> u \<and> u \<le> 1" unfolding u_def using xr by (intro interpolant_range) simp_all
  have vr: "0 \<le> v \<and> v \<le> 1" unfolding v_def using yr by (intro interpolant_range) simp_all
  have b00: "\<bar>d00\<bar> \<le> xf + yf"
    unfolding d00_def using dot_bound [of a00 xf yf] xr yr by simp
  have b10: "\<bar>d10\<bar> \<le> (1 - xf) + yf"
    unfolding d10_def using dot_bound [of a10 "xf - 1" yf] xr yr by simp
  have b01: "\<bar>d01\<bar> \<le> xf + (1 - yf)"
    unfolding d01_def using dot_bound [of a01 xf "yf - 1"] xr yr by simp
  have b11: "\<bar>d11\<bar> \<le> (1 - xf) + (1 - yf)"
    unfolding d11_def using dot_bound [of a11 "xf - 1" "yf - 1"] xr yr by simp
  have n0: "\<bar>d00 * (1 - u) + u * d10\<bar> \<le> (xf + yf) * (1 - u) + u * ((1 - xf) + yf)"
    by (rule mix_bound [OF b00 b10]) (use ur in simp_all)
  have n1: "\<bar>d01 * (1 - u) + u * d11\<bar> \<le> (xf + (1 - yf)) * (1 - u) + u * ((1 - xf) + (1 - yf))"
    by (rule mix_bound [OF b01 b11]) (use ur in simp_all)
  have n: "\<bar>(d00 * (1 - u) + u * d10) * (1 - v) + v * (d01 * (1 - u) + u * d11)\<bar>
           \<le> ((xf + yf) * (1 - u) + u * ((1 - xf) + yf)) * (1 - v)
             + v * ((xf + (1 - yf)) * (1 - u) + u * ((1 - xf) + (1 - yf)))"
    by (rule mix_bound [OF n0 n1]) (use vr in simp_all)
  have split: "((xf + yf) * (1 - u) + u * ((1 - xf) + yf)) * (1 - v)
             + v * ((xf + (1 - yf)) * (1 - u) + u * ((1 - xf) + (1 - yf)))
             = (xf * (1 - u) + u * (1 - xf)) + (yf * (1 - v) + v * (1 - yf))"
    by (simp add: algebra_simps)
  have "xf * (1 - u) + u * (1 - xf) \<le> 1 / 2"
    unfolding u_def using xr by (intro blend_le_half) simp_all
  moreover have "yf * (1 - v) + v * (1 - yf) \<le> 1 / 2"
    unfolding v_def using yr by (intro blend_le_half) simp_all
  ultimately have "\<bar>(d00 * (1 - u) + u * d10) * (1 - v) + v * (d01 * (1 - u) + u * d11)\<bar> \<le> 1"
    using n split by linarith
  moreover have "octave_value draws h w res_y res_x i j
        = (d00 * (1 - u) + u * d10) * (1 - v) + v * (d01 * (1 - u) + u * d11)"
    by (simp add: octave_value_def Let_def X_def Y_def xf_def yf_def u_def v_def
        a00_def a10_def a01_def a11_def d00_def d10_def d01_def d11_def)
  ultimately show ?thesis by simp
qed

lemma single_octave_bound:
  assumes "single_octave lib h w res_y res_x sd g = Inr (f, g')" "i < h" "j < w"
  shows "\<bar>f i j\<bar> \<le> 1"
proof -
  have "0 < h * w" using assms(2,3) by simp
  with assms(1) have "1 \<le> res_y \<and> 1 \<le> res_x \<and> f = octave_value (case sd of Some s \<Rightarrow> np_seeded lib s | None \<Rightarrow> g) h w res_y res_x"
    by (auto simp add: single_octave_def Let_def split: if_splits)
  then show ?thesis using octave_value_bound [of res_y res_x] by simp
qed

lemma octave_loop_bound:
  assumes "octave_loop lib h w res_y res_x pers sd k oct tot amp mx g = Inr (tot', mx', g')"
    and "0 \<le> pers" "0 \<le> amp" "0 \<le> mx" "\<forall>i<h. \<forall>j<w. \<bar>tot i j\<bar> \<le> mx"
  shows "0 \<le> mx' \<and> (\<forall>i<h. \<forall>j<w. \<bar>tot' i j\<bar> \<le> mx')"
  using assms
proof (induction k arbitrary: oct tot amp mx g)
  case 0
  then show ?case by simp
next
  case (Suc k)
  from Suc.prems(1) obtain f g1 where
    so: "single_octave lib h w (res_y * 2 ^ oct) (res_x * 2 ^ oct) (map_option (\<lambda>s. s + int oct) sd) g = Inr (f, g1)"
    by (cases "single_octave lib h w (res_y * 2 ^ oct) (res_x * 2 ^ oct) (map_option (\<lambda>s. s + int oct) sd) g") auto
  with Suc.prems(1) have rec:
    "octave_loop lib h w res_y res_x pers sd k (Suc oct) (\<lambda>i j. tot i j + amp * f i j) (amp * pers) (mx + amp) g1 = Inr (tot', mx', g')"
    by simp
  have "\<forall>i<h. \<forall>j<w. \<bar>tot i j + amp * f i j\<bar> \<le> mx + amp"
  proof (intro allI impI)
    fix i j assume ij: "i < h" "j < w"
    have "\<bar>f i j\<bar> \<le> 1" using so ij by (rule single_octave_bound)
    then have "\<bar>amp * f i j\<bar> \<le> amp"
      using Suc.prems(3) by (simp add: abs_mult mult_left_le)
    moreover have "\<bar>tot i j\<bar> \<le> mx" using Suc.prems(5) ij by simp
    ultimately show "\<bar>tot i j + amp * f i j\<bar> \<le> mx + amp" by linarith
  qed
  moreover have "0 \<le> amp * pers" "0 \<le> mx + amp"
    using Suc.prems by simp_all
  ultimately show ?case
    using Suc.IH [OF rec Suc.prems(2)] by blast
qed

lemma demo_octave_value: "octave_value demo_rng 8 8 2 2 0 1 = 75 / 512"
  by (simp add: octave_value_def Let_def lattice_angle_def demo_rng_def py_int_def interpolant_def)

lemma demo_generate:
  "generate_perlin_noise_2d demo_lib (8, 8) (2, 2) 1 (1 / 2) (Some 1) g = Inr (demo_noise, demo_rng)"
  by (simp add: generate_perlin_noise_2d_def np_seed_ok_def demo_lib_def Let_def single_octave_def
      demo_noise_def eval_nat_numeral)

text \<open>
  Claim C3. Whenever \<open>generate_perlin_noise_2d\<close> returns a field (with the default
  persistence 0.5, for any shape, base resolution, octave count and seed), every value
  of the field inside its shape lies in \<open>[-1, 1]\<close>.
\<close>

theorem noise_in_unit_interval:
  assumes "generate_perlin_noise_2d lib shape res octs (1 / 2) sd g = Inr (noise, g')"
    and "i < n_rows noise" and "j < n_cols noise"
  shows "- 1 \<le> n_at noise i j \<and> n_at noise i j \<le> 1"
proof -
  let ?h = "nat (fst shape)" and ?w = "nat (snd shape)"
  let ?g1 = "case sd of Some s \<Rightarrow> np_seeded lib s | None \<Rightarrow> g"
  from assms(1) obtain tot mx where
    loop: "octave_loop lib ?h ?w (fst res) (snd res) (1 / 2) sd (nat octs) 0 (\<lambda>i j. 0) 1 0 ?g1
           = Inr (tot, mx, g')"
    and noise: "noise = \<lparr>n_rows = ?h, n_cols = ?w,
                  n_at = (if mx \<noteq> 0 then (\<lambda>i j. tot i j / mx) else tot)\<rparr>"
    by (auto simp add: generate_perlin_noise_2d_def Let_def split: if_splits sum.splits)
  have b: "0 \<le> mx \<and> (\<forall>i<?h. \<forall>j<?w. \<bar>tot i j\<bar> \<le> mx)"
    using loop by (rule octave_loop_bound) simp_all
  have ij: "i < ?h" "j < ?w" using assms(2,3) noise by simp_all
  with b have t: "\<bar>tot i j\<bar> \<le> mx" by simp
  show ?thesis
  proof (cases "mx = 0")
    case True
    with t noise show ?thesis by simp
  next
    case False
    with b have "0 < mx" by simp
    moreover have "- mx \<le> tot i j" "tot i j \<le> mx"
      using t by linarith+
    ultimately have "- 1 \<le> tot i j / mx \<and> tot i j / mx \<le> 1"
      by (simp add: pos_le_divide_eq pos_divide_le_eq)
    with False noise show ?thesis by simp
  qed
qed

theorem noise_in_unit_interval_witness:
  "generate_perlin_noise_2d demo_lib (8, 8) (2, 2) 1 (1 / 2) (Some 1) demo_rng
     = Inr (demo_noise, demo_rng)
   \<and> 0 < n_rows demo_noise \<and> 1 < n_cols demo_noise
   \<and> n_at demo_noise 0 1 = 75 / 512
   \<and> - 1 \<le> n_at demo_noise 0 1 \<and> n_at demo_noise 0 1 \<le> 1"
proof -
  have a: "generate_perlin_noise_2d demo_lib (8, 8) (2, 2) 1 (1 / 2) (Some 1) demo_rng
           = Inr (demo_noise, demo_rng)"
    by (rule demo_generate)
  have b: "0 < n_rows demo_noise" and c: "1 < n_cols demo_noise"
    by (simp_all add: demo_noise_def)
  have d: "n_at demo_noise 0 1 = 75 / 512"
    using demo_octave_value by (simp add: demo_noise_def)
  from noise_in_unit_interval [OF a b c] a b c d show ?thesis by simp
qed

section \<open>Rendering the demo configuration\<close>

lemma demo_build_grid: "build_grid demo_params = Inr (flat_grid, demo_bounds)"
  by (simp add: build_grid_def demo_params_def flat_grid_def demo_bounds_def py_int_def Let_def)

lemma demo_fill_angles:
  "fill_angles demo_lib flat_grid demo_params g = Inr (demo_angles, demo_snapped, demo_rng)"
proof -
  have a: "n_rows flat_grid = 8" "n_cols flat_grid = 8"
    by (simp_all add: flat_grid_def)
  have b: "py_int (max 2 (case noise_scale demo_params of None \<Rightarrow> 4 | Some r \<Rightarrow> r)) = 2"
    "max 1 (min 10 (case octaves demo_params of None \<Rightarrow> 1 | Some k \<Rightarrow> k)) = 1"
    "seed demo_params = Some 1" "swirl demo_params = None" "quantize_steps demo_params = Some 4"
    by (simp_all add: demo_params_def py_int_def)
  show ?thesis
    unfolding fill_angles_def a b Let_def
    by (simp add: demo_generate demo_angles_def demo_snapped_def flat_grid_def demo_noise_def)
qed

lemma demo_render_grid:
  "render_grid demo_lib demo_params s = Inr (demo_angles, demo_bounds, zero_state)"
proof -
  have "seed demo_params = Some 1" by (simp add: demo_params_def)
  moreover have "py_seeded demo_lib 1 = demo_rng" by (simp add: demo_lib_def)
  ultimately show ?thesis
    by (simp add: render_grid_def demo_build_grid demo_fill_angles zero_state_def)
qed

lemma demo_octave_00: "octave_value demo_rng 8 8 2 2 0 0 = 0"
  by (simp add: octave_value_def Let_def lattice_angle_def demo_rng_def py_int_def interpolant_def)

lemma demo_angle_cell:
  assumes "20 \<le> x" "x < 40" "20 \<le> y" "y < 40"
  shows "get_field_angle demo_angles demo_bounds demo_params x y = Inr 0"
proof -
  have "py_int ((x - 20) / 20) = 0" "py_int ((y - 20) / 20) = 0"
    using assms by (simp_all add: py_int_def floor_eq_iff)
  then show ?thesis
    by (simp add: get_field_angle_def demo_params_def demo_bounds_def Let_def demo_angles_def
        demo_octave_00)
qed

lemma demo_trace:
  "trace_stroke demo_angles demo_bounds demo_params 20 20 demo_rng
   = Inr ([(20, 20), (25, 20), (30, 20)], demo_rng)"
proof -
  have p: "max_length demo_params = 2" "angle_gain demo_params = 1 / 2" "jitter demo_params = 0"
    "step_size demo_params = 5"
    by (simp_all add: demo_params_def)
  have q: "in_bounds demo_bounds (25, 20)" "in_bounds demo_bounds (30, 20)"
    by (simp_all add: in_bounds_def demo_bounds_def)
  show ?thesis
    by (simp add: trace_stroke_def demo_angle_cell p q eval_nat_numeral Let_def py_uniform_def
        advance_demo_rng)
qed

lemma demo_draw:
  "draw_stroke demo_angles demo_bounds demo_params 20 20 [(20, 20), (25, 20), (30, 20)]
     blank_canvas demo_rng = Inr (demo_canvas, demo_rng)"
proof -
  have b: "stroke_base demo_angles demo_bounds demo_params 20 20 demo_rng = Inr (0, demo_rng)"
    by (simp add: stroke_base_def demo_params_def demo_bounds_def)
  have c: "segment_color demo_params 0 t = Inr (10, 10, 10)" if "0 \<le> t" "t < 1" for t
    using that
    by (simp add: segment_color_def demo_params_def segment_idx_def
        stroke_base_idx_def stroke_span_def py_int_def lut_get_def Let_def)
  have d: "[0..<length [(20 :: real, 20 :: real), (25, 20), (30, 20)] - 1] = [0, Suc 0]"
    by (simp add: upt_rec)
  show ?thesis
    unfolding draw_stroke_def d
    by (simp add: b c Let_def blank_canvas_def demo_canvas_def)
       (simp add: demo_params_def py_int_def)
qed

lemma demo_seed_points:
  "seed_points demo_params demo_bounds demo_rng = Inr ([(20, 20)], demo_rng)"
proof -
  have "nat (py_int ((x1 demo_bounds - x0 demo_bounds) * (y1 demo_bounds - y0 demo_bounds)
                     * density demo_params)) = Suc 0"
    by (simp add: demo_params_def demo_bounds_def py_int_def)
  then show ?thesis
    by (simp add: seed_points_def Let_def demo_params_def py_uniform_def advance_demo_rng)
       (simp add: demo_bounds_def demo_rng_def)
qed

lemma demo_draw_strokes:
  "draw_strokes demo_angles demo_bounds demo_params demo_rng = Inr (demo_canvas, demo_rng)"
proof -
  have "width demo_params = 200" "height demo_params = 200"
    "background demo_params = (255, 255, 255)"
    by (simp_all add: demo_params_def)
  then show ?thesis
    using demo_draw
    by (simp add: draw_strokes_def demo_seed_points demo_trace blank_canvas_def)
qed

lemma demo_render: "render demo_lib demo_params s = Inr (demo_canvas, zero_state)"
  by (simp add: render_def demo_render_grid demo_draw_strokes zero_state_def)

lemma demo_angle_01: "n_at demo_angles 0 1 = 2 * pi * (75 / 512)"
  using demo_octave_value by (simp add: demo_angles_def)

lemma demo_snapped_01: "n_at demo_snapped 0 1 = pi / 2"
proof -
  have e: "n_at demo_angles 0 1 / (2 * pi) * 4 = 75 / 128"
    using demo_octave_value by (simp add: demo_angles_def)
  have "np_round (n_at demo_angles 0 1 / (2 * pi) * 4) = 1"
    unfolding e by (simp add: np_round_def Let_def)
  then show ?thesis unfolding demo_snapped_def by simp
qed

section \<open>Determinism of a seeded render\<close>

lemma fill_angles_seeded:
  "seed p = Some k \<Longrightarrow> fill_angles lib a p g = fill_angles lib a p g'"
  by (simp add: fill_angles_def generate_perlin_noise_2d_def Let_def)

lemma render_grid_seeded:
  assumes "seed p = Some k"
  shows "render_grid lib p s = render_grid lib p s'"
proof -
  have f: "fill_angles lib a p (np_rng s) = fill_angles lib a p (np_rng s')" for a
    using assms by (rule fill_angles_seeded)
  have e: "s\<lparr>py_rng := u, np_rng := v\<rparr> = s'\<lparr>py_rng := u, np_rng := v\<rparr>" for u v
    by (cases s, cases s') simp
  show ?thesis
    using assms by (auto simp add: render_grid_def Let_def f e split: sum.splits)
qed

lemma render_seeded:
  assumes "seed p = Some k"
  shows "render lib p s = render lib p s'"
  by (simp add: render_def render_grid_seeded [OF assms, of lib s s'])

lemma draw_segments_size:
  "draw_segments p ps base is c = Inr c' \<Longrightarrow>
   c_width c' = c_width c \<and> c_height c' = c_height c \<and> c_background c' = c_background c"
proof (induction "is" arbitrary: c)
  case Nil
  then show ?case by simp
next
  case (Cons i rest)
  then show ?case
    by (fastforce simp add: Let_def split: sum.splits)
qed

lemma draw_stroke_size:
  "draw_stroke angles b p sx sy ps c g = Inr (c', g') \<Longrightarrow>
   c_width c' = c_width c \<and> c_height c' = c_height c \<and> c_background c' = c_background c"
  by (auto simp add: draw_stroke_def split: if_splits sum.splits dest: draw_segments_size)

lemma stroke_loop_size:
  "stroke_loop angles b p pts c g = Inr (c', g') \<Longrightarrow>
   c_width c' = c_width c \<and> c_height c' = c_height c \<and> c_background c' = c_background c"
proof (induction pts arbitrary: c g)
  case Nil
  then show ?case by simp
next
  case (Cons pt pts)
  from Cons.prems obtain ps g1 c1 g2 where
    "draw_stroke angles b p (fst pt) (snd pt) ps c g1 = Inr (c1, g2)"
    "stroke_loop angles b p pts c1 g2 = Inr (c', g')"
    by (auto split: sum.splits)
  then show ?case
    using Cons.IH [of c1 g2] draw_stroke_size [of angles b p "fst pt" "snd pt" ps c g1 c1 g2]
    by simp
qed

lemma draw_strokes_size:
  "draw_strokes angles b p g = Inr (img, g') \<Longrightarrow>
   c_width img = width p \<and> c_height img = height p \<and> c_background img = background p"
  by (auto simp add: draw_strokes_def split: if_splits sum.splits dest: stroke_loop_size)

lemma render_size:
  "render lib p s = Inr (img, s') \<Longrightarrow>
   c_width img = width p \<and> c_height img = height p \<and> c_background img = background p"
  by (auto simp add: render_def split: sum.splits dest: draw_strokes_size)

text \<open>
  Claim C2. When the configuration has a seed and a call of \<open>render\<close> returns a
  raster, a second call with the same configuration, from whatever state the process
  is in by then (in particular the state the first call left), returns the identical
  canvas; the canvas has the configured width and height.
\<close>

theorem render_deterministic:
  assumes "seed p = Some k" and "render lib p s = Inr (img, s1)"
  shows "render lib p s' = Inr (img, s1) \<and> c_width img = width p \<and> c_height img = height p"
  using render_seeded [OF assms(1), of lib s' s] assms(2) render_size [OF assms(2)] by simp

theorem render_deterministic_witness:
  "seed demo_params = Some 1
   \<and> render demo_lib demo_params half_state = Inr (demo_canvas, zero_state)
   \<and> render demo_lib demo_params zero_state = Inr (demo_canvas, zero_state)
   \<and> c_width demo_canvas = width demo_params \<and> c_height demo_canvas = height demo_params"
proof -
  have a: "seed demo_params = Some 1"
    by (simp add: demo_params_def)
  have b: "render demo_lib demo_params half_state = Inr (demo_canvas, zero_state)"
    by (rule demo_render)
  from render_deterministic [OF a b, of zero_state] a b show ?thesis by simp
qed

section \<open>The global generators\<close>

lemma advance_advance: "advance m (advance n g) = advance (n + m) g"
  by (simp add: advance_def ac_simps)

lemma advance_0: "advance 0 g = g"
  by (simp add: advance_def)

lemma random_points_advance: "snd (random_points n b g) = advance (2 * n) g"
proof (induction n arbitrary: g)
  case 0
  then show ?case by (simp add: advance_0)
next
  case (Suc n)
  then show ?case by (simp add: Let_def py_uniform_def advance_advance)
qed

lemma seed_points_advance:
  assumes "seed_points p b g = Inr (pts, g')"
  shows "\<exists>n. g' = advance n g"
proof (cases "seeding p = ''random''")
  case True
  with assms have "g' = snd (random_points (nat (py_int ((x1 b - x0 b) * (y1 b - y0 b) * density p))) b g)"
    by (simp add: seed_points_def Let_def)
  then show ?thesis
    unfolding random_points_advance by blast
next
  case False
  with assms have "g' = g"
    by (auto simp add: seed_points_def Let_def split: if_splits sum.splits)
  then have "g' = advance 0 g" by (simp add: advance_0)
  then show ?thesis by blast
qed

lemma follow_advance:
  "follow angles b p n x y h ps g = Inr (ps', g') \<Longrightarrow> \<exists>m. g' = advance m g"
proof (induction n arbitrary: x y h ps g)
  case 0
  then have "g' = advance 0 g" by (simp add: advance_0)
  then show ?case by blast
next
  case (Suc n)
  from Suc.prems obtain fa where fa: "get_field_angle angles b p x y = Inr fa"
    by (cases "get_field_angle angles b p x y") simp_all
  define h2 where
    "h2 = h * (1 - angle_gain p) + fa * angle_gain p + fst (py_uniform (- jitter p) (jitter p) g)"
  define x' where "x' = x + cos h2 * step_size p"
  define y' where "y' = y + sin h2 * step_size p"
  show ?case
  proof (cases "in_bounds b (x', y')")
    case False
    with Suc.prems fa have "g' = advance 1 g"
      by (simp add: Let_def h2_def x'_def y'_def py_uniform_def)
    then show ?thesis by blast
  next
    case True
    with Suc.prems fa
    have "follow angles b p n x' y' h2 (ps @ [(x', y')]) (advance 1 g) = Inr (ps', g')"
      by (simp add: Let_def h2_def x'_def y'_def py_uniform_def)
    then obtain m where "g' = advance m (advance 1 g)"
      using Suc.IH by blast
    then show ?thesis by (auto simp add: advance_advance)
  qed
qed

lemma trace_stroke_advance:
  "trace_stroke angles b p sx sy g = Inr (ps, g') \<Longrightarrow> \<exists>m. g' = advance m g"
  by (auto simp add: trace_stroke_def split: sum.splits dest: follow_advance)

lemma stroke_base_advance:
  assumes "stroke_base angles b p sx sy g = Inr (base, g')"
  shows "\<exists>m. g' = advance m g"
proof -
  from assms have "g' = g \<or> g' = advance 1 g"
    by (auto simp add: stroke_base_def Let_def py_random_def split: if_splits sum.splits)
  then have "g' = advance 0 g \<or> g' = advance 1 g" by (simp add: advance_0)
  then show ?thesis by blast
qed

lemma draw_stroke_advance:
  assumes "draw_stroke angles b p sx sy ps c g = Inr (c', g')"
  shows "\<exists>m. g' = advance m g"
proof (cases "1 < length ps")
  case True
  with assms obtain base where "stroke_base angles b p sx sy g = Inr (base, g')"
    by (auto simp add: draw_stroke_def split: sum.splits)
  then show ?thesis by (rule stroke_base_advance)
next
  case False
  with assms have "g' = g" by (simp add: draw_stroke_def)
  then have "g' = advance 0 g" by (simp add: advance_0)
  then show ?thesis by blast
qed

lemma stroke_loop_advance:
  "stroke_loop angles b p pts c g = Inr (c', g') \<Longrightarrow> \<exists>m. g' = advance m g"
proof (induction pts arbitrary: c g)
  case Nil
  then have "g' = advance 0 g" by (simp add: advance_0)
  then show ?case by blast
next
  case (Cons pt pts)
  from Cons.prems obtain ps g1 c1 g2 where
    t: "trace_stroke angles b p (fst pt) (snd pt) g = Inr (ps, g1)" and
    d: "draw_stroke angles b p (fst pt) (snd pt) ps c g1 = Inr (c1, g2)" and
    r: "stroke_loop angles b p pts c1 g2 = Inr (c', g')"
    by (auto split: sum.splits)
  from trace_stroke_advance [OF t] obtain m1 where "g1 = advance m1 g" by blast
  moreover from draw_stroke_advance [OF d] obtain m2 where "g2 = advance m2 g1" by blast
  moreover from Cons.IH [OF r] obtain m3 where "g' = advance m3 g2" by blast
  ultimately have "g' = advance (m1 + m2 + m3) g"
    by (simp add: advance_advance)
  then show ?case by blast
qed

lemma draw_strokes_advance:
  "draw_strokes angles b p g = Inr (img, g') \<Longrightarrow> \<exists>m. g' = advance m g"
proof -
  assume a: "draw_strokes angles b p g = Inr (img, g')"
  then obtain pts g1 c0 where s: "seed_points p b g = Inr (pts, g1)"
    and l: "stroke_loop angles b p pts c0 g1 = Inr (img, g')"
    by (auto simp add: draw_strokes_def split: if_splits sum.splits)
  from seed_points_advance [OF s] obtain m1 where "g1 = advance m1 g" by blast
  moreover from stroke_loop_advance [OF l] obtain m2 where "g' = advance m2 g1" by blast
  ultimately have "g' = advance (m1 + m2) g" by (simp add: advance_advance)
  then show ?thesis by blast
qed

lemma single_octave_seeded_state:
  "single_octave lib h w ry rx (Some s) g = Inr (f, g') \<Longrightarrow> g' = g"
  by (auto simp add: single_octave_def Let_def split: if_splits)

lemma octave_loop_seeded_state:
  "octave_loop lib h w ry rx pers (Some s) k oct tot amp mx g = Inr (tot', mx', g') \<Longrightarrow> g' = g"
proof (induction k arbitrary: oct tot amp mx)
  case 0
  then show ?case by simp
next
  case (Suc k)
  then show ?case
    by (auto split: sum.splits dest!: single_octave_seeded_state)
qed

lemma generate_seeded_state:
  "generate_perlin_noise_2d lib shape res octs pers (Some s) g = Inr (noise, g') \<Longrightarrow>
   g' = np_seeded lib s"
  by (auto simp add: generate_perlin_noise_2d_def Let_def split: if_splits sum.splits
      dest!: octave_loop_seeded_state)

lemma fill_angles_seeded_state:
  "seed p = Some s \<Longrightarrow> fill_angles lib a p g = Inr (a1, a2, g') \<Longrightarrow> g' = np_seeded lib s"
  by (auto simp add: fill_angles_def Let_def split: sum.splits dest!: generate_seeded_state)

lemma render_grid_seeded_state:
  assumes "seed p = Some k" and "render_grid lib p s = Inr (a, b, s1)"
  shows "py_rng s1 = py_seeded lib k \<and> np_rng s1 = np_seeded lib k"
proof -
  from assms obtain a0 a1 a2 g' where
    f: "fill_angles lib a0 p (np_rng s) = Inr (a1, a2, g')" and
    s1: "s1 = s\<lparr>py_rng := py_seeded lib k, np_rng := g'\<rparr>"
    by (auto simp add: render_grid_def Let_def split: sum.splits)
  from fill_angles_seeded_state [OF assms(1) f] s1 show ?thesis by simp
qed

text \<open>
  Claim C4, as amended. \<open>render\<close> works on the generators of the process. With a seed
  in the configuration it reseeds both of them, so its draws do not depend on the state
  before the call; after the call numpy's global generator is in the state
  \<open>np.random.seed(seed)\<close> leaves, and Python's global generator is the one seeded by
  \<open>random.seed(seed)\<close>, advanced by the draws of the render.
\<close>

theorem render_reseeds_global_generators:
  assumes "seed p = Some k" and "render lib p s = Inr (img, s')"
  shows "np_rng s' = np_seeded lib k \<and> (\<exists>n. py_rng s' = advance n (py_seeded lib k))"
proof -
  from assms(2) obtain a b s1 g where
    g: "render_grid lib p s = Inr (a, b, s1)" and
    d: "draw_strokes a b p (py_rng s1) = Inr (img, g)" and
    s': "s' = s1\<lparr>py_rng := g\<rparr>"
    by (auto simp add: render_def split: sum.splits)
  from render_grid_seeded_state [OF assms(1) g]
  have "py_rng s1 = py_seeded lib k" "np_rng s1 = np_seeded lib k" by simp_all
  moreover from draw_strokes_advance [OF d] obtain n where "g = advance n (py_rng s1)" by blast
  ultimately show ?thesis using s' by auto
qed

theorem render_reseeds_global_generators_witness:
  "seed demo_params = Some 1
   \<and> render demo_lib demo_params half_state = Inr (demo_canvas, zero_state)
   \<and> np_rng zero_state = np_seeded demo_lib 1
   \<and> (\<exists>n. py_rng zero_state = advance n (py_seeded demo_lib 1))"
proof -
  have a: "seed demo_params = Some 1"
    by (simp add: demo_params_def)
  have b: "render demo_lib demo_params half_state = Inr (demo_canvas, zero_state)"
    by (rule demo_render)
  from render_reseeds_global_generators [OF a b] a b show ?thesis by simp
qed

text \<open>
  Claim C4 as stated fails: a render of the demo configuration started in a process
  whose two global generators would next return 0.5 leaves them in the seeded state,
  where they next return 0. The call has changed the global state.
\<close>

theorem render_mutates_global_state_counterexample:
  "render demo_lib demo_params half_state = Inr (demo_canvas, zero_state)
   \<and> py_rng half_state 0 = 1 / 2 \<and> py_rng zero_state 0 = 0
   \<and> np_rng half_state 0 = 1 / 2 \<and> np_rng zero_state 0 = 0"
  by (simp add: demo_render) (simp add: half_state_def zero_state_def demo_rng_def)

section \<open>Oversized margins\<close>

lemma py_int_below: "x \<le> - 1 \<Longrightarrow> py_int x < 0"
  by (simp add: py_int_def)

lemma wide_margin: "0 < cell_size wide_margin_params
  \<and> of_int (min (width wide_margin_params) (height wide_margin_params)) * margin_factor wide_margin_params = 60
  \<and> of_int (min (width wide_margin_params) (height wide_margin_params))
     - 2 * (of_int (min (width wide_margin_params) (height wide_margin_params)) * margin_factor wide_margin_params)
         \<le> - cell_size wide_margin_params"
  by (simp add: wide_margin_params_def demo_params_def)

lemma half_margin_render:
  "render demo_lib half_margin_params s = Inr (small_blank_canvas, zero_state)"
proof -
  define b where "b = \<lparr>x0 = 50, y0 = 50, x1 = 50, y1 = (50::real)\<rparr>"
  define a0 where "a0 = \<lparr>n_rows = 0, n_cols = 0, n_at = (\<lambda>i j. 0::real)\<rparr>"
  have bg: "build_grid half_margin_params = Inr (a0, b)"
    by (simp add: build_grid_def half_margin_params_def demo_params_def py_int_def Let_def
        a0_def b_def)
  have sd: "seed half_margin_params = Some 1"
    by (simp add: half_margin_params_def demo_params_def)
  have gen: "generate_perlin_noise_2d demo_lib (0, 0) (2, 2) 1 (1 / 2) (Some 1) g
             = Inr (\<lparr>n_rows = 0, n_cols = 0, n_at = octave_value demo_rng 0 0 2 2\<rparr>, demo_rng)" for g
    by (simp add: generate_perlin_noise_2d_def np_seed_ok_def demo_lib_def Let_def
        single_octave_def eval_nat_numeral)
  have par: "py_int (max 2 (case noise_scale half_margin_params of None \<Rightarrow> 4 | Some r \<Rightarrow> r)) = 2"
    "max 1 (min 10 (case octaves half_margin_params of None \<Rightarrow> 1 | Some k \<Rightarrow> k)) = 1"
    by (simp_all add: half_margin_params_def demo_params_def py_int_def)
  have "\<exists>a1 a2. fill_angles demo_lib a0 half_margin_params (np_rng s) = Inr (a1, a2, demo_rng)"
    unfolding fill_angles_def par Let_def sd
    by (simp add: a0_def gen)
  then obtain a1 a2 where
    f: "fill_angles demo_lib a0 half_margin_params (np_rng s) = Inr (a1, a2, demo_rng)"
    by blast
  have ps: "py_seeded demo_lib 1 = demo_rng"
    by (simp add: demo_lib_def)
  have rg: "render_grid demo_lib half_margin_params s = Inr (a1, b, zero_state)"
    by (simp add: render_grid_def sd bg f ps zero_state_def)
  have "seed_points half_margin_params b demo_rng = Inr ([], demo_rng)"
    by (simp add: seed_points_def b_def half_margin_params_def demo_params_def py_int_def)
  then have "draw_strokes a1 b half_margin_params demo_rng = Inr (small_blank_canvas, demo_rng)"
    by (simp add: draw_strokes_def small_blank_canvas_def)
       (simp add: half_margin_params_def demo_params_def)
  with rg show ?thesis
    by (simp add: render_def zero_state_def)
qed

text \<open>
  Claim C9, as amended. If the cell size is positive and the margin exceeds half of the
  smaller canvas dimension by at least half a cell, that is
  \<open>min(width, height) - 2 * margin \<le> - cell_size\<close>, then \<open>render\<close> aborts with the
  ValueError of \<open>np.zeros\<close> in \<open>build_grid\<close>, before a canvas exists.
\<close>

theorem oversized_margin_aborts:
  assumes "0 < cell_size p"
    and "of_int (min (width p) (height p)) - 2 * (of_int (min (width p) (height p)) * margin_factor p)
         \<le> - cell_size p"
  shows "render lib p s = Inl ValueError"
proof -
  let ?m = "of_int (min (width p) (height p)) * margin_factor p"
  have "build_grid p = Inl ValueError"
  proof (cases "width p \<le> height p")
    case True
    then have "(of_int (width p) - 2 * ?m) / cell_size p \<le> - 1"
      using assms by (simp add: min_def pos_divide_le_eq)
    then have "py_int ((of_int (width p) - 2 * ?m) / cell_size p) < 0"
      by (rule py_int_below)
    then show ?thesis using assms(1) by (simp add: build_grid_def Let_def)
  next
    case False
    then have "(of_int (height p) - 2 * ?m) / cell_size p \<le> - 1"
      using assms by (simp add: min_def pos_divide_le_eq)
    then have "py_int ((of_int (height p) - 2 * ?m) / cell_size p) < 0"
      by (rule py_int_below)
    then show ?thesis using assms(1) by (simp add: build_grid_def Let_def)
  qed
  then show ?thesis by (simp add: render_def render_grid_def)
qed

theorem oversized_margin_aborts_witness:
  "0 < cell_size wide_margin_params
   \<and> of_int (min (width wide_margin_params) (height wide_margin_params))
       * margin_factor wide_margin_params = 60
   \<and> render demo_lib wide_margin_params half_state = Inl ValueError"
proof -
  have a: "0 < cell_size wide_margin_params"
    using wide_margin by simp
  have b: "of_int (min (width wide_margin_params) (height wide_margin_params))
           - 2 * (of_int (min (width wide_margin_params) (height wide_margin_params))
                  * margin_factor wide_margin_params)
           \<le> - cell_size wide_margin_params"
    using wide_margin by simp
  from oversized_margin_aborts [OF a b, of demo_lib half_state] a wide_margin
  show ?thesis by simp
qed

text \<open>
  Claim C9 as stated fails: with a margin of exactly half of a 100 by 100 canvas
  (margin factor 0.5, margin 50) the grid and the bounds are empty, no point is seeded,
  and \<open>render\<close> returns the blank raster; nothing is raised.
\<close>

theorem half_margin_counterexample:
  "of_int (min (width half_margin_params) (height half_margin_params))
     * margin_factor half_margin_params = 50
   \<and> render demo_lib half_margin_params half_state = Inr (small_blank_canvas, zero_state)"
  by (simp add: half_margin_render) (simp add: half_margin_params_def demo_params_def)

section \<open>Quantization\<close>

lemma demo_sample_01:
  "get_field_angle demo_angles demo_bounds demo_params 45 25 = Inr (2 * pi * (75 / 512))"
proof -
  have "py_int ((45 - 20) / 20) = 1" "py_int ((25 - 20) / 20) = 0"
    by (simp_all add: py_int_def)
  then have "get_field_angle demo_angles demo_bounds demo_params 45 25
             = Inr (n_at demo_angles 0 1)"
    by (simp add: get_field_angle_def demo_params_def demo_bounds_def Let_def demo_angles_def)
  then show ?thesis by (simp only: demo_angle_01)
qed

text \<open>
  Claim C1 fails on the code. The demo configuration has \<open>quantize_steps = 4\<close>.
  \<open>fill_angles\<close> returns the snapped array, whose cell \<open>(0, 1)\<close> is \<open>\<pi>/2\<close>, but
  \<open>render\<close> drops that result: the array it hands to \<open>draw_strokes\<close> is the one written
  in place before the snapping, whose cell \<open>(0, 1)\<close> is \<open>2\<pi> * 75/512\<close>. The stroke
  tracer samples that value, which is not its own snapped value.
\<close>

theorem quantization_result_discarded:
  "quantize_steps demo_params = Some 4
   \<and> fill_angles demo_lib flat_grid demo_params (np_rng half_state)
       = Inr (demo_angles, demo_snapped, demo_rng)
   \<and> render_grid demo_lib demo_params half_state = Inr (demo_angles, demo_bounds, zero_state)
   \<and> n_at demo_snapped 0 1 = pi / 2
   \<and> n_at demo_angles 0 1 = 2 * pi * (75 / 512)
   \<and> get_field_angle demo_angles demo_bounds demo_params 45 25 = Inr (2 * pi * (75 / 512))
   \<and> of_int (np_round (n_at demo_angles 0 1 / (2 * pi) * 4)) * (2 * pi / 4)
       \<noteq> n_at demo_angles 0 1"
proof -
  have q: "quantize_steps demo_params = Some 4"
    by (simp add: demo_params_def)
  have r: "np_round (75 / 128) = 1"
    by (simp add: np_round_def Let_def)
  have n: "of_int (np_round (n_at demo_angles 0 1 / (2 * pi) * 4)) * (2 * pi / 4)
           \<noteq> n_at demo_angles 0 1"
    unfolding demo_angle_01 by (simp add: r)
  show ?thesis
    using q n
    by (simp only: demo_fill_angles demo_render_grid demo_snapped_01 demo_angle_01
        demo_sample_01 simp_thms)
qed

end
